theory Spec2Isabelle
  imports Main "HOL-Library.Word"
begin

section \<open>The synthetic data pipeline\<close>

text \<open>
  A shallow embedding of \<^verbatim>\<open>synthetic_data/synthetic_data_pipeline.py\<close>: the worker
  \<^verbatim>\<open>process_and_save_text\<close> and the orchestrator \<^verbatim>\<open>run_pipeline\<close> with its caller
  \<^verbatim>\<open>main\<close>.

  The modules \<^verbatim>\<open>tts_processor\<close>, \<^verbatim>\<open>audio_tokenizer\<close>, \<^verbatim>\<open>writer\<close>, \<^verbatim>\<open>utils\<close> and
  \<^verbatim>\<open>speakers\<close> are imported by the file and are not part of it. Their calls are
  parameters of the model: each call either returns or raises, and the theorems hold for
  every behaviour of these parameters unless a hypothesis says otherwise.

  Taken to return, and left out of the model: the construction of the two processors and
  of the writer (lines 57-83), \<^verbatim>\<open>writer.close()\<close>, the calls of the logger, the creation,
  start and join of the processes, \<^verbatim>\<open>configure_logging\<close> and \<^verbatim>\<open>upload_folder_to_s3\<close>.
  \<^verbatim>\<open>except Exception\<close> is taken to catch every exception that the calls inside the \<^verbatim>\<open>try\<close>
  raise.
\<close>

subsection \<open>Data\<close>

text \<open>A dataset is a list of rows; a row has the columns \<^verbatim>\<open>prompt\<close> and \<^verbatim>\<open>index\<close>.\<close>

type_synonym row = "string \<times> int"
type_synonym dataset = "row list"

text \<open>The dictionary appended to \<^verbatim>\<open>batch\<close> (lines 95-99).\<close>

record processed_record =
  index :: int
  audio :: string
  tokens :: string

text \<open>Python exceptions that the modelled code can raise or let through.\<close>

datatype error =
    KeyError string
  | AttributeError string
  | ZeroDivisionError
  | StageError
  | WriteError
  | ExternalError

text \<open>
  What a worker leaves behind outside its own memory: the batches handed to
  \<^verbatim>\<open>save_batch\<close>, the lists handed to \<^verbatim>\<open>save_failed_indices\<close> (both only when the call
  returned), and \<^verbatim>\<open>writer.close()\<close>. The writer and the failed-index file belong to one
  worker: their paths are built from \<^verbatim>\<open>process_id\<close> (lines 71-78).
\<close>

datatype effect =
    SaveBatch "processed_record list"
  | SaveFailedIndices "int list"
  | WriterClose

text \<open>
  The messages of \<^verbatim>\<open>logger.warning\<close> (line 112, attempt number and index) and
  \<^verbatim>\<open>logger.error\<close> (line 116). Debug and info messages of the worker are not modelled.
\<close>

datatype log_entry =
    AttemptFailed int int
  | AllAttemptsFailed int

text \<open>
  The external calls of a worker. The conversion stages are indexed by the position of the
  item in the chunk and by the attempt number, so that every call of a run can have an
  outcome of its own; \<open>None\<close> is a raised exception. The stages run for the speaker,
  sample rate and device of the worker. \<open>write_ok n\<close> tells whether the \<open>n\<close>-th call (from 0)
  of \<^verbatim>\<open>save_batch\<close> or \<^verbatim>\<open>save_failed_indices\<close> by this worker returns (otherwise it raises).
  \<open>dumps_audio\<close> and \<open>dumps_tokens\<close> stand for the two \<^verbatim>\<open>json.dumps\<close> expressions.
\<close>

record ('a, 't) worker_env =
  convert_text_to_audio :: "nat \<Rightarrow> nat \<Rightarrow> string \<Rightarrow> 'a option"
  process_single_audio :: "nat \<Rightarrow> nat \<Rightarrow> 'a \<Rightarrow> 't option"
  dumps_audio :: "'a \<Rightarrow> string"
  dumps_tokens :: "'t \<Rightarrow> string"
  write_ok :: "nat \<Rightarrow> bool"

text \<open>
  The mutable state of a worker: its local variables \<^verbatim>\<open>batch\<close> and \<^verbatim>\<open>failed_indices\<close>, the
  shared \<^verbatim>\<open>processed_count\<close> (a \<^verbatim>\<open>Value("i", 0)\<close>, that is a C \<^verbatim>\<open>int\<close>: 32 bits, read as
  signed), the number of durable write calls made so far, the effects and the log.
  Every increment of the counter happens under its lock (line 108), so the increments of
  other workers only add to the value and are left out of the state of this one.
\<close>

record worker_state =
  batch :: "processed_record list"
  failed_indices :: "int list"
  processed_count :: "32 word"
  write_calls :: nat
  effects :: "effect list"
  logged :: "log_entry list"

type_synonym 'r raised = "(error \<times> worker_state) + 'r"

subsection \<open>The worker: \<^verbatim>\<open>process_and_save_text\<close>\<close>

text \<open>\<^verbatim>\<open>save_batch(batch, writer)\<close> and \<^verbatim>\<open>save_failed_indices(failed_indices, path)\<close>.\<close>

definition durable_write :: "('a, 't) worker_env \<Rightarrow> effect \<Rightarrow> worker_state \<Rightarrow> worker_state raised" where
  "durable_write E w s =
     (let s1 = s\<lparr>write_calls := Suc (write_calls s)\<rparr>
      in if write_ok E (write_calls s)
         then Inr (s1\<lparr>effects := effects s1 @ [w]\<rparr>)
         else Inl (WriteError, s1))"

definition save_batch :: "('a, 't) worker_env \<Rightarrow> processed_record list \<Rightarrow> worker_state \<Rightarrow> worker_state raised" where
  "save_batch E rs s = durable_write E (SaveBatch rs) s"

definition save_failed_indices :: "('a, 't) worker_env \<Rightarrow> int list \<Rightarrow> worker_state \<Rightarrow> worker_state raised" where
  "save_failed_indices E is s = durable_write E (SaveFailedIndices is) s"

text \<open>Lines 90-93: the two conversion stages of one attempt.\<close>

definition run_stages :: "('a, 't) worker_env \<Rightarrow> nat \<Rightarrow> nat \<Rightarrow> string \<Rightarrow> ('a \<times> 't) option" where
  "run_stages E pos attempt text =
     (case convert_text_to_audio E pos attempt text of
        None \<Rightarrow> None
      | Some a \<Rightarrow>
          (case process_single_audio E pos attempt a of
             None \<Rightarrow> None
           | Some t \<Rightarrow> Some (a, t)))"

text \<open>Lines 103-106: the body of \<^verbatim>\<open>if len(batch) >= save_batch_size\<close>.\<close>

definition flush :: "('a, 't) worker_env \<Rightarrow> worker_state \<Rightarrow> worker_state raised" where
  "flush E s =
     (case save_batch E (batch s) s of
        Inl x \<Rightarrow> Inl x
      | Inr s1 \<Rightarrow>
          (let s2 = s1\<lparr>batch := []\<rparr>
           in case save_failed_indices E (failed_indices s2) s2 of
                Inl x \<Rightarrow> Inl x
              | Inr s3 \<Rightarrow> Inr (s3\<lparr>failed_indices := []\<rparr>)))"

text \<open>Lines 94-106: \<^verbatim>\<open>batch.append(...)\<close> and the flush at the threshold.\<close>

definition offer :: "('a, 't) worker_env \<Rightarrow> int \<Rightarrow> processed_record \<Rightarrow> worker_state \<Rightarrow> worker_state raised" where
  "offer E save_batch_size r s =
     (let s1 = s\<lparr>batch := batch s @ [r]\<rparr>
      in if int (length (batch s1)) \<ge> save_batch_size then flush E s1 else Inr s1)"

text \<open>Lines 90-110: the body of \<^verbatim>\<open>try\<close>. \<open>Inr\<close> is reaching \<^verbatim>\<open>break\<close>.\<close>

definition try_body ::
  "('a, 't) worker_env \<Rightarrow> int \<Rightarrow> nat \<Rightarrow> nat \<Rightarrow> string \<Rightarrow> int \<Rightarrow> worker_state \<Rightarrow> worker_state raised" where
  "try_body E save_batch_size pos attempt text idx s =
     (case run_stages E pos attempt text of
        None \<Rightarrow> Inl (StageError, s)
      | Some (a, t) \<Rightarrow>
          (case offer E save_batch_size
                  \<lparr>index = idx, audio = dumps_audio E a, tokens = dumps_tokens E t\<rparr> s of
             Inl x \<Rightarrow> Inl x
           | Inr s1 \<Rightarrow> Inr (s1\<lparr>processed_count := processed_count s1 + 1\<rparr>)))"

text \<open>Lines 111-117: the handler of \<^verbatim>\<open>except Exception\<close>.\<close>

definition on_except :: "int \<Rightarrow> nat \<Rightarrow> int \<Rightarrow> worker_state \<Rightarrow> worker_state" where
  "on_except max_retries attempt idx s =
     (let s1 = s\<lparr>logged := logged s @ [AttemptFailed (int attempt + 1) idx]\<rparr>
      in if int attempt = max_retries - 1
         then s1\<lparr>logged := logged s1 @ [AllAttemptsFailed idx],
                 failed_indices := failed_indices s1 @ [idx]\<rparr>
         else s1)"

text \<open>Lines 88-117: \<^verbatim>\<open>for attempt in range(max_retries)\<close>, over the attempts still to make.\<close>

fun retry_loop ::
  "('a, 't) worker_env \<Rightarrow> int \<Rightarrow> int \<Rightarrow> nat \<Rightarrow> string \<Rightarrow> int \<Rightarrow> nat list \<Rightarrow> worker_state \<Rightarrow> worker_state" where
  "retry_loop E save_batch_size max_retries pos text idx [] s = s"
| "retry_loop E save_batch_size max_retries pos text idx (attempt # rest) s =
     (case try_body E save_batch_size pos attempt text idx s of
        Inr s1 \<Rightarrow> s1
      | Inl (e, s1) \<Rightarrow>
          retry_loop E save_batch_size max_retries pos text idx rest
            (on_except max_retries attempt idx s1))"

text \<open>\<^verbatim>\<open>range(max_retries)\<close>: empty when \<^verbatim>\<open>max_retries\<close> is not positive.\<close>

definition py_range :: "int \<Rightarrow> nat list" where
  "py_range n = [0 ..< nat n]"

text \<open>Lines 86-117: \<^verbatim>\<open>for text, index in zip(batch_prompt, batch_index)\<close>, from position \<open>pos\<close>.\<close>

fun item_loop ::
  "('a, 't) worker_env \<Rightarrow> int \<Rightarrow> int \<Rightarrow> nat \<Rightarrow> row list \<Rightarrow> worker_state \<Rightarrow> worker_state" where
  "item_loop E save_batch_size max_retries pos [] s = s"
| "item_loop E save_batch_size max_retries pos ((text, idx) # rest) s =
     item_loop E save_batch_size max_retries (Suc pos) rest
       (retry_loop E save_batch_size max_retries pos text idx (py_range max_retries) s)"

text \<open>Lines 119-127: saving what remains, and closing the writer.\<close>

definition drain :: "('a, 't) worker_env \<Rightarrow> worker_state \<Rightarrow> worker_state raised" where
  "drain E s =
     (case (if batch s \<noteq> [] then save_batch E (batch s) s else Inr s) of
        Inl x \<Rightarrow> Inl x
      | Inr s1 \<Rightarrow>
          (case (if failed_indices s1 \<noteq> [] then save_failed_indices E (failed_indices s1) s1
                 else Inr s1) of
             Inl x \<Rightarrow> Inl x
           | Inr s2 \<Rightarrow> Inr (s2\<lparr>effects := effects s2 @ [WriterClose]\<rparr>)))"

text \<open>
  The arguments of \<^verbatim>\<open>process_and_save_text\<close> other than the shared counter. In the
  worker, \<open>device\<close>, \<open>speaker\<close> and \<open>sample_rate\<close> only reach the conversion stages, and
  \<open>process_id\<close>, \<open>save_dir\<close> and \<open>format\<close> only name the worker's own files.
\<close>

record 'k worker_args =
  subset :: dataset
  device :: string
  process_id :: nat
  save_dir :: string
  save_batch_size :: int
  sample_rate :: int
  max_retries :: int
  speaker :: 'k
  format :: string

definition init_state :: "32 word \<Rightarrow> worker_state" where
  "init_state c =
     \<lparr>batch = [], failed_indices = [], processed_count = c, write_calls = 0,
      effects = [], logged = []\<rparr>"

text \<open>The state when the loop over the chunk has ended (line 118).\<close>

definition after_items :: "('a, 't) worker_env \<Rightarrow> 'k worker_args \<Rightarrow> 32 word \<Rightarrow> worker_state" where
  "after_items E args c =
     (let batch_prompt = map fst (subset args);
          batch_index = map snd (subset args)
      in item_loop E (save_batch_size args) (max_retries args) 0
           (zip batch_prompt batch_index) (init_state c))"

definition process_and_save_text ::
  "('a, 't) worker_env \<Rightarrow> 'k worker_args \<Rightarrow> 32 word \<Rightarrow> worker_state raised" where
  "process_and_save_text E args c = drain E (after_items E args c)"

subsection \<open>What a run leaves behind\<close>

text \<open>
  The records handed to the writer and the indices handed to the failed-index file, in
  the order of the calls that returned.
\<close>

fun saved_records :: "effect list \<Rightarrow> processed_record list" where
  "saved_records [] = []"
| "saved_records (SaveBatch rs # ws) = rs @ saved_records ws"
| "saved_records (SaveFailedIndices is # ws) = saved_records ws"
| "saved_records (WriterClose # ws) = saved_records ws"

fun saved_failed :: "effect list \<Rightarrow> int list" where
  "saved_failed [] = []"
| "saved_failed (SaveBatch rs # ws) = saved_failed ws"
| "saved_failed (SaveFailedIndices is # ws) = is @ saved_failed ws"
| "saved_failed (WriterClose # ws) = saved_failed ws"

text \<open>The state in which a worker stops, whether it returns or an exception leaves it.\<close>

fun final_state :: "worker_state raised \<Rightarrow> worker_state" where
  "final_state (Inr s) = s"
| "final_state (Inl (e, s)) = s"

subsection \<open>The orchestrator: \<^verbatim>\<open>run_pipeline\<close>\<close>

text \<open>
  The configuration dictionary, seen at the eight keys that \<^verbatim>\<open>run_pipeline\<close> reads: \<open>None\<close>
  is an absent key, and a present key holds a value of the type that the configuration
  documents for it.
\<close>

record config =
  cfg_devices :: "string list option"
  cfg_num_procs_per_device :: "int option"
  cfg_save_dir :: "string option"
  cfg_save_batch_size :: "int option"
  cfg_sample_rate :: "int option"
  cfg_max_retries :: "int option"
  cfg_speaker :: "string option"
  cfg_format :: "string option"

text \<open>The keys in the order in which line 157 lists them.\<close>

definition required_keys :: "string list" where
  "required_keys =
     [''devices'', ''num_procs_per_device'', ''save_dir'', ''save_batch_size'',
      ''sample_rate'', ''max_retries'', ''speaker'', ''format'']"

text \<open>
  Lines 146-167: the generator looks the keys up one after the other, and the first
  absent one raises \<^verbatim>\<open>KeyError\<close>.
\<close>

definition unpack ::
  "config \<Rightarrow> error + (string list \<times> int \<times> string \<times> int \<times> int \<times> int \<times> string \<times> string)" where
  "unpack c =
     (case cfg_devices c of None \<Rightarrow> Inl (KeyError ''devices'') | Some devices \<Rightarrow>
      (case cfg_num_procs_per_device c of None \<Rightarrow> Inl (KeyError ''num_procs_per_device'') | Some nppd \<Rightarrow>
       (case cfg_save_dir c of None \<Rightarrow> Inl (KeyError ''save_dir'') | Some dir \<Rightarrow>
        (case cfg_save_batch_size c of None \<Rightarrow> Inl (KeyError ''save_batch_size'') | Some sbs \<Rightarrow>
         (case cfg_sample_rate c of None \<Rightarrow> Inl (KeyError ''sample_rate'') | Some rate \<Rightarrow>
          (case cfg_max_retries c of None \<Rightarrow> Inl (KeyError ''max_retries'') | Some mr \<Rightarrow>
           (case cfg_speaker c of None \<Rightarrow> Inl (KeyError ''speaker'') | Some spk \<Rightarrow>
            (case cfg_format c of None \<Rightarrow> Inl (KeyError ''format'') | Some fmt \<Rightarrow>
               Inr (devices, nppd, dir, sbs, rate, mr, spk, fmt)))))))))"

text \<open>
  What the orchestrator and \<^verbatim>\<open>main\<close> do that can be observed from outside, in order. The
  worker processes run on their own; each \<open>Start\<close> carries the arguments of one of them.
\<close>

datatype 'k event =
    Print
  | Makedirs string
  | LogDatasetSize nat
  | RequestChunks int
  | Start "'k worker_args"
  | LogProcessed "32 word"
  | Sleep nat
  | Join nat
  | LogFinished
  | LogFinalCount "32 word"
  | LogSubsample nat
  | LogFullDataset
  | LogUploading
  | Upload string string string int

text \<open>
  The configuration file as \<^verbatim>\<open>main\<close> reads it (lines 224-262). The key
  \<^verbatim>\<open>remaining_indices_file\<close> is tested for truth: a null value is the empty string here.
\<close>

record main_config =
  dataset_name :: string
  dataset_split :: string
  remaining_indices_file :: string
  test_mode :: bool
  test :: config
  test_num_samples :: nat
  processing :: config
  upload_to_s3 :: bool
  s3_save_dir :: string
  s3_bucket_name :: string
  s3_folder :: string
  s3_num_processes :: int

text \<open>
  The surroundings of the orchestrator: the attributes of the module \<^verbatim>\<open>speakers\<close>; whether
  \<^verbatim>\<open>os.makedirs\<close> returns; \<^verbatim>\<open>create_non_overlapping_chunks\<close> of \<^verbatim>\<open>utils\<close>, which is not part of
  the file; \<open>is_alive t i\<close>, the answer of \<^verbatim>\<open>is_alive()\<close> of process \<open>i\<close> when the condition of
  the \<^verbatim>\<open>while\<close> loop is evaluated for the \<open>t\<close>-th time (from 0); \<open>read_count t\<close>, the value of
  the shared counter at the \<open>t\<close>-th read by the orchestrator; and the calls that \<^verbatim>\<open>main\<close>
  makes before the pipeline runs.
\<close>

record 'k orchestrator_env =
  speakers :: "string \<Rightarrow> 'k option"
  makedirs_ok :: "string \<Rightarrow> bool"
  create_non_overlapping_chunks :: "dataset \<Rightarrow> int \<Rightarrow> error + dataset list"
  is_alive :: "nat \<Rightarrow> nat \<Rightarrow> bool"
  read_count :: "nat \<Rightarrow> 32 word"
  load_config :: "string \<Rightarrow> error + main_config"
  load_dataset :: "string \<Rightarrow> string \<Rightarrow> error + dataset"
  select_rows :: "dataset \<Rightarrow> nat list \<Rightarrow> error + dataset"
  load_indices :: "string \<Rightarrow> error + nat list"

type_synonym 'k trace = "'k event list"
type_synonym 'k outcome = "(error \<times> 'k trace) + 'k trace"

text \<open>
  Lines 184-202: \<^verbatim>\<open>for i, chunk in enumerate(chunks)\<close>, from index \<open>i\<close>. The remainder
  \<^verbatim>\<open>i % len(devices)\<close> raises when there is no device.
\<close>

fun start_workers ::
  "string list \<Rightarrow> string \<Rightarrow> int \<Rightarrow> int \<Rightarrow> int \<Rightarrow> 'k \<Rightarrow> string \<Rightarrow> nat \<Rightarrow> dataset list \<Rightarrow> 'k trace
     \<Rightarrow> 'k outcome" where
  "start_workers devices dir sbs rate mr spk fmt i [] tr = Inr tr"
| "start_workers devices dir sbs rate mr spk fmt i (chunk # rest) tr =
     (if length devices = 0 then Inl (ZeroDivisionError, tr)
      else start_workers devices dir sbs rate mr spk fmt (Suc i) rest
             (tr @ [Start \<lparr>subset = chunk, device = devices ! (i mod length devices),
                            process_id = i, save_dir = dir, save_batch_size = sbs,
                            sample_rate = rate, max_retries = mr, speaker = spk,
                            format = fmt\<rparr>]))"

text \<open>Lines 144-202: from \<^verbatim>\<open>print(config)\<close> to the start of the last worker.\<close>

definition launch_workers ::
  "'k orchestrator_env \<Rightarrow> dataset \<Rightarrow> config \<Rightarrow> (error \<times> 'k trace) + ('k trace \<times> nat)" where
  "launch_workers env data c =
     (let tr0 = [Print]
      in case unpack c of
           Inl e \<Rightarrow> Inl (e, tr0)
         | Inr (devices, nppd, dir, sbs, rate, mr, spk, fmt) \<Rightarrow>
             (case speakers env spk of
                None \<Rightarrow> Inl (AttributeError spk, tr0)
              | Some voice \<Rightarrow>
                  if \<not> makedirs_ok env dir then Inl (ExternalError, tr0)
                  else
                    (let num_workers = int (length devices) * nppd;
                         tr1 = tr0 @ [Makedirs dir, LogDatasetSize (length data),
                                      RequestChunks num_workers]
                     in case create_non_overlapping_chunks env data num_workers of
                          Inl e \<Rightarrow> Inl (e, tr1)
                        | Inr chunks \<Rightarrow>
                            (case start_workers devices dir sbs rate mr voice fmt 0 chunks tr1 of
                               Inl x \<Rightarrow> Inl x
                             | Inr tr2 \<Rightarrow> Inr (tr2, length chunks)))))"

text \<open>\<^verbatim>\<open>any(p.is_alive() for p in worker_processes)\<close>, at the \<open>t\<close>-th evaluation.\<close>

definition any_alive :: "'k orchestrator_env \<Rightarrow> nat \<Rightarrow> nat \<Rightarrow> bool" where
  "any_alive env n t = list_ex (\<lambda>i. is_alive env t i) [0 ..< n]"

text \<open>
  Lines 204-207: the \<^verbatim>\<open>while\<close> loop, from its \<open>t\<close>-th round. It need not end: \<open>None\<close> is a
  loop that runs forever. The result carries the number of rounds made.
\<close>

partial_function (option) poll_workers ::
  "'k orchestrator_env \<Rightarrow> nat \<Rightarrow> nat \<Rightarrow> 'k trace \<Rightarrow> (nat \<times> 'k trace) option" where
  "poll_workers env n t tr =
     (if any_alive env n t
      then poll_workers env n (Suc t) (tr @ [LogProcessed (read_count env t), Sleep 60])
      else Some (t, tr))"

text \<open>Lines 204-216: polling, joining every process, and the two final log lines.\<close>

definition wait_for_workers :: "'k orchestrator_env \<Rightarrow> nat \<Rightarrow> 'k trace \<Rightarrow> 'k trace option" where
  "wait_for_workers env n tr =
     (case poll_workers env n 0 tr of
        None \<Rightarrow> None
      | Some (t, tr1) \<Rightarrow>
          Some (tr1 @ map Join [0 ..< n] @ [LogFinished, LogFinalCount (read_count env t)]))"

definition run_pipeline :: "'k orchestrator_env \<Rightarrow> dataset \<Rightarrow> config \<Rightarrow> 'k outcome option" where
  "run_pipeline env data c =
     (case launch_workers env data c of
        Inl x \<Rightarrow> Some (Inl x)
      | Inr (tr, n) \<Rightarrow>
          (case wait_for_workers env n tr of
             None \<Rightarrow> None
           | Some tr1 \<Rightarrow> Some (Inr tr1)))"

subsection \<open>The entry point: \<^verbatim>\<open>main\<close>\<close>





text \<open>Views of a trace: the workers started, in order, and the kinds of some events.\<close>

fun started :: "'k trace \<Rightarrow> 'k worker_args list" where
  "started [] = []"
| "started (Start args # tr) = args # started tr"
| "started (ev # tr) = started tr"

fun is_upload :: "'k event \<Rightarrow> bool" where
  "is_upload (Upload dir bucket folder n) = True"
| "is_upload ev = False"

fun is_join :: "'k event \<Rightarrow> bool" where
  "is_join (Join i) = True"
| "is_join ev = False"

text \<open>The trace of a run, whether it returned or raised.\<close>

fun trace_of :: "'k outcome \<Rightarrow> 'k trace" where
  "trace_of (Inr tr) = tr"
| "trace_of (Inl (e, tr)) = tr"

subsection \<open>Concrete runs\<close>

text \<open>
  Environments and arguments on which the model is run in the examples below. The
  conversion stages return the prompt itself; \<open>ok pos attempt\<close> tells whether the
  synthesis of that attempt returns, \<open>w\<close> which durable writes return.
\<close>

definition demo_env :: "(nat \<Rightarrow> nat \<Rightarrow> bool) \<Rightarrow> (nat \<Rightarrow> bool) \<Rightarrow> (string, string) worker_env" where
  "demo_env ok w =
     \<lparr>convert_text_to_audio = (\<lambda>pos attempt text. if ok pos attempt then Some text else None),
      process_single_audio = (\<lambda>pos attempt a. Some a),
      dumps_audio = (\<lambda>a. a),
      dumps_tokens = (\<lambda>t. t),
      write_ok = w\<rparr>"

definition steady_env :: "(string, string) worker_env" where
  "steady_env = demo_env (\<lambda>pos attempt. True) (\<lambda>n. True)"

definition flaky_writer_env :: "(string, string) worker_env" where
  "flaky_writer_env = demo_env (\<lambda>pos attempt. True) (\<lambda>n. n \<noteq> 0)"

definition broken_writer_env :: "(string, string) worker_env" where
  "broken_writer_env = demo_env (\<lambda>pos attempt. True) (\<lambda>n. False)"

definition first_item_fails_env :: "(string, string) worker_env" where
  "first_item_fails_env = demo_env (\<lambda>pos attempt. pos \<noteq> 0) (\<lambda>n. True)"

definition second_item_fails_env :: "(string, string) worker_env" where
  "second_item_fails_env = demo_env (\<lambda>pos attempt. pos \<noteq> 1) (\<lambda>n. True)"

definition demo_args :: "dataset \<Rightarrow> int \<Rightarrow> int \<Rightarrow> unit worker_args" where
  "demo_args rows sbs mr =
     \<lparr>subset = rows, device = ''cuda:0'', process_id = 0, save_dir = ''out'',
      save_batch_size = sbs, sample_rate = 16000, max_retries = mr, speaker = (),
      format = ''parquet''\<rparr>"

text \<open>
  A configuration with two devices and two processes per device, and surroundings in
  which one speaker exists, every row becomes a chunk of its own, and the workers are seen
  alive at the first two polls.
\<close>

definition demo_config :: config where
  "demo_config =
     \<lparr>cfg_devices = Some [''cuda:0'', ''cuda:1''], cfg_num_procs_per_device = Some 2,
      cfg_save_dir = Some ''out'', cfg_save_batch_size = Some 3, cfg_sample_rate = Some 16000,
      cfg_max_retries = Some 3, cfg_speaker = Some ''default_speaker'',
      cfg_format = Some ''parquet''\<rparr>"

definition demo_rows :: dataset where
  "demo_rows = [(''a'', 0), (''b'', 1), (''c'', 2), (''d'', 3)]"

definition demo_main_config :: main_config where
  "demo_main_config =
     \<lparr>dataset_name = ''prompts'', dataset_split = ''train'', remaining_indices_file = [],
      test_mode = False, test = demo_config, test_num_samples = 2, processing = demo_config,
      upload_to_s3 = True, s3_save_dir = ''out'', s3_bucket_name = ''bucket'',
      s3_folder = ''tokens'', s3_num_processes = 4\<rparr>"

definition demo_orchestrator_env :: "string orchestrator_env" where
  "demo_orchestrator_env =
     \<lparr>speakers = (\<lambda>name. if name = ''default_speaker'' then Some ''voice'' else None),
      makedirs_ok = (\<lambda>dir. True),
      create_non_overlapping_chunks =
        (\<lambda>data n. if n \<le> 0 then Inl ExternalError else Inr (map (\<lambda>r. [r]) data)),
      is_alive = (\<lambda>t i. t < 2),
      read_count = (\<lambda>t. if t = 0 then 0 else if t = 1 then 3 else 4),
      load_config = (\<lambda>path. Inr demo_main_config),
      load_dataset = (\<lambda>name split. Inr demo_rows),
      select_rows = (\<lambda>data rows. Inr (map (\<lambda>i. data ! i) rows)),
      load_indices = (\<lambda>path. Inr [])\<rparr>"

section \<open>Properties\<close>

subsection \<open>Auxiliary facts\<close>

lemma durable_write_cases:
  "durable_write E w s =
     (if write_ok E (write_calls s)
      then Inr (s\<lparr>write_calls := Suc (write_calls s), effects := effects s @ [w]\<rparr>)
      else Inl (WriteError, s\<lparr>write_calls := Suc (write_calls s)\<rparr>))"
  by (simp add: durable_write_def Let_def)

lemma saved_records_append [simp]:
  "saved_records (xs @ ys) = saved_records xs @ saved_records ys"
  by (induction xs rule: saved_records.induct) simp_all

lemma saved_failed_append [simp]:
  "saved_failed (xs @ ys) = saved_failed xs @ saved_failed ys"
  by (induction xs rule: saved_failed.induct) simp_all

lemma offer_cases:
  "offer E sbs r s =
     (if sbs \<le> int (length (batch s)) + 1
      then (if \<not> write_ok E (write_calls s)
            then Inl (WriteError, s\<lparr>batch := batch s @ [r], write_calls := Suc (write_calls s)\<rparr>)
            else if \<not> write_ok E (Suc (write_calls s))
            then Inl (WriteError, s\<lparr>batch := [], write_calls := Suc (Suc (write_calls s)),
                                     effects := effects s @ [SaveBatch (batch s @ [r])]\<rparr>)
            else Inr (s\<lparr>batch := [], failed_indices := [], write_calls := Suc (Suc (write_calls s)),
                        effects := effects s @ [SaveBatch (batch s @ [r]),
                                                SaveFailedIndices (failed_indices s)]\<rparr>))
      else Inr (s\<lparr>batch := batch s @ [r]\<rparr>))"
  by (simp add: offer_def flush_def save_batch_def save_failed_indices_def
      durable_write_cases Let_def)

lemma retry_loop_invariant:
  assumes "I s"
    and "\<And>a s s1. I s \<Longrightarrow> try_body E sbs pos a text idx s = Inr s1 \<Longrightarrow> I s1"
    and "\<And>a s e s1. I s \<Longrightarrow> try_body E sbs pos a text idx s = Inl (e, s1)
           \<Longrightarrow> I (on_except mr a idx s1)"
  shows "I (retry_loop E sbs mr pos text idx as s)"
  using assms(1)
proof (induction as arbitrary: s)
  case Nil
  then show ?case by simp
next
  case (Cons a as)
  show ?case
  proof (cases "try_body E sbs pos a text idx s")
    case (Inl x)
    obtain e s1 where x: "x = (e, s1)" by (cases x)
    from Cons.prems Inl x have "I (on_except mr a idx s1)" by (auto intro: assms(3))
    from Cons.IH [OF this] Inl x show ?thesis by simp
  next
    case (Inr s1)
    with Cons.prems have "I s1" by (auto intro: assms(2))
    with Inr show ?thesis by simp
  qed
qed

lemma item_loop_invariant:
  assumes "I s"
    and "\<And>pos text idx s. (text, idx) \<in> set rows \<Longrightarrow> I s
           \<Longrightarrow> I (retry_loop E sbs mr pos text idx (py_range mr) s)"
  shows "I (item_loop E sbs mr pos rows s)"
  using assms
proof (induction rows arbitrary: pos s)
  case Nil
  then show ?case by simp
next
  case (Cons row rows)
  obtain p idx where row: "row = (p, idx)" by (cases row)
  have "I (retry_loop E sbs mr pos p idx (py_range mr) s)"
    using Cons.prems row by simp
  then have "I (item_loop E sbs mr (Suc pos) rows (retry_loop E sbs mr pos p idx (py_range mr) s))"
    by (rule Cons.IH) (use Cons.prems(2) in auto)
  with row show ?case by simp
qed

lemma item_loop_append:
  "item_loop E sbs mr pos (xs @ ys) s =
     item_loop E sbs mr (pos + length xs) ys (item_loop E sbs mr pos xs s)"
  by (induction xs arbitrary: pos s) auto

lemma on_except_fields [simp]:
  "batch (on_except mr a idx s) = batch s"
  "effects (on_except mr a idx s) = effects s"
  "processed_count (on_except mr a idx s) = processed_count s"
  "write_calls (on_except mr a idx s) = write_calls s"
  "set (failed_indices s) \<subseteq> set (failed_indices (on_except mr a idx s))"
  by (auto simp: on_except_def Let_def)

lemma try_body_no_close:
  assumes "WriterClose \<notin> set (effects s)"
  shows "WriterClose \<notin> set (effects (final_state (try_body E sbs pos a p idx s)))"
  using assms
  by (auto simp: try_body_def offer_cases split: option.splits)

lemma retry_loop_no_close:
  assumes "WriterClose \<notin> set (effects s)"
  shows "WriterClose \<notin> set (effects (retry_loop E sbs mr pos p idx as s))"
proof (rule retry_loop_invariant [where I = "\<lambda>s. WriterClose \<notin> set (effects s)"])
  show "WriterClose \<notin> set (effects s)" by (rule assms)
next
  fix a s s1
  assume "WriterClose \<notin> set (effects s)" "try_body E sbs pos a p idx s = Inr s1"
  with try_body_no_close [of s E sbs pos a p idx] show "WriterClose \<notin> set (effects s1)"
    by simp
next
  fix a s e s1
  assume "WriterClose \<notin> set (effects s)" "try_body E sbs pos a p idx s = Inl (e, s1)"
  with try_body_no_close [of s E sbs pos a p idx]
  show "WriterClose \<notin> set (effects (on_except mr a idx s1))"
    by simp
qed

lemma item_loop_no_close:
  assumes "WriterClose \<notin> set (effects s)"
  shows "WriterClose \<notin> set (effects (item_loop E sbs mr pos rows s))"
  by (rule item_loop_invariant [where I = "\<lambda>s. WriterClose \<notin> set (effects s)"])
     (auto simp: assms retry_loop_no_close)

lemma after_items_no_close: "WriterClose \<notin> set (effects (after_items E args c))"
  by (simp add: after_items_def Let_def item_loop_no_close init_state_def)

lemma try_body_absent:
  assumes "idx' \<noteq> idx"
    and "idx \<notin> index ` set (batch s)" "idx \<notin> index ` set (saved_records (effects s))"
  shows "idx \<notin> index ` set (batch (final_state (try_body E sbs pos a p idx' s)))
       \<and> idx \<notin> index ` set (saved_records (effects (final_state (try_body E sbs pos a p idx' s))))"
  using assms
  by (auto simp: try_body_def offer_cases split: option.splits)

lemma retry_loop_absent:
  assumes "idx' \<noteq> idx"
    and "idx \<notin> index ` set (batch s) \<and> idx \<notin> index ` set (saved_records (effects s))"
  shows "idx \<notin> index ` set (batch (retry_loop E sbs mr pos p idx' as s))
       \<and> idx \<notin> index ` set (saved_records (effects (retry_loop E sbs mr pos p idx' as s)))"
proof (rule retry_loop_invariant
    [where I = "\<lambda>s. idx \<notin> index ` set (batch s) \<and> idx \<notin> index ` set (saved_records (effects s))"])
  show "idx \<notin> index ` set (batch s) \<and> idx \<notin> index ` set (saved_records (effects s))"
    by (rule assms(2))
next
  fix a s s1
  assume "idx \<notin> index ` set (batch s) \<and> idx \<notin> index ` set (saved_records (effects s))"
    and "try_body E sbs pos a p idx' s = Inr s1"
  with try_body_absent [OF assms(1), of s E sbs pos a p]
  show "idx \<notin> index ` set (batch s1) \<and> idx \<notin> index ` set (saved_records (effects s1))"
    by simp
next
  fix a s e s1
  assume "idx \<notin> index ` set (batch s) \<and> idx \<notin> index ` set (saved_records (effects s))"
    and "try_body E sbs pos a p idx' s = Inl (e, s1)"
  with try_body_absent [OF assms(1), of s E sbs pos a p]
  show "idx \<notin> index ` set (batch (on_except mr a idx' s1))
      \<and> idx \<notin> index ` set (saved_records (effects (on_except mr a idx' s1)))"
    by simp
qed

lemma item_loop_absent:
  assumes "idx \<notin> snd ` set rows"
    and "idx \<notin> index ` set (batch s) \<and> idx \<notin> index ` set (saved_records (effects s))"
  shows "idx \<notin> index ` set (batch (item_loop E sbs mr pos rows s))
       \<and> idx \<notin> index ` set (saved_records (effects (item_loop E sbs mr pos rows s)))"
proof (rule item_loop_invariant
    [where I = "\<lambda>s. idx \<notin> index ` set (batch s) \<and> idx \<notin> index ` set (saved_records (effects s))"])
  show "idx \<notin> index ` set (batch s) \<and> idx \<notin> index ` set (saved_records (effects s))"
    by (rule assms(2))
next
  fix pos p idx' and s :: worker_state
  assume "(p, idx') \<in> set rows"
    and "idx \<notin> index ` set (batch s) \<and> idx \<notin> index ` set (saved_records (effects s))"
  moreover from this assms(1) have "idx' \<noteq> idx" by force
  ultimately show "idx \<notin> index ` set (batch (retry_loop E sbs mr pos p idx' (py_range mr) s))
      \<and> idx \<notin> index ` set (saved_records (effects (retry_loop E sbs mr pos p idx' (py_range mr) s)))"
    by (intro retry_loop_absent) auto
qed

lemma try_body_kept:
  assumes "idx \<in> set (failed_indices s) \<or> idx \<in> set (saved_failed (effects s))"
  shows "idx \<in> set (failed_indices (final_state (try_body E sbs pos a p idx' s)))
       \<or> idx \<in> set (saved_failed (effects (final_state (try_body E sbs pos a p idx' s))))"
  using assms
  by (auto simp: try_body_def offer_cases split: option.splits)

lemma on_except_kept:
  assumes "idx \<in> set (failed_indices s) \<or> idx \<in> set (saved_failed (effects s))"
  shows "idx \<in> set (failed_indices (on_except mr a idx' s))
       \<or> idx \<in> set (saved_failed (effects (on_except mr a idx' s)))"
  using assms by (auto simp: on_except_def Let_def)

lemma retry_loop_kept:
  assumes "idx \<in> set (failed_indices s) \<or> idx \<in> set (saved_failed (effects s))"
  shows "idx \<in> set (failed_indices (retry_loop E sbs mr pos p idx' as s))
       \<or> idx \<in> set (saved_failed (effects (retry_loop E sbs mr pos p idx' as s)))"
proof (rule retry_loop_invariant
    [where I = "\<lambda>s. idx \<in> set (failed_indices s) \<or> idx \<in> set (saved_failed (effects s))"])
  show "idx \<in> set (failed_indices s) \<or> idx \<in> set (saved_failed (effects s))"
    by (rule assms)
next
  fix a s s1
  assume "idx \<in> set (failed_indices s) \<or> idx \<in> set (saved_failed (effects s))"
    and "try_body E sbs pos a p idx' s = Inr s1"
  with try_body_kept [of idx s E sbs pos a p idx']
  show "idx \<in> set (failed_indices s1) \<or> idx \<in> set (saved_failed (effects s1))"
    by simp
next
  fix a s e s1
  assume "idx \<in> set (failed_indices s) \<or> idx \<in> set (saved_failed (effects s))"
    and "try_body E sbs pos a p idx' s = Inl (e, s1)"
  with try_body_kept [of idx s E sbs pos a p idx']
  have "idx \<in> set (failed_indices s1) \<or> idx \<in> set (saved_failed (effects s1))"
    by simp
  then show "idx \<in> set (failed_indices (on_except mr a idx' s1))
      \<or> idx \<in> set (saved_failed (effects (on_except mr a idx' s1)))"
    by (rule on_except_kept)
qed

lemma item_loop_kept:
  assumes "idx \<in> set (failed_indices s) \<or> idx \<in> set (saved_failed (effects s))"
  shows "idx \<in> set (failed_indices (item_loop E sbs mr pos rows s))
       \<or> idx \<in> set (saved_failed (effects (item_loop E sbs mr pos rows s)))"
proof (rule item_loop_invariant
    [where I = "\<lambda>s. idx \<in> set (failed_indices s) \<or> idx \<in> set (saved_failed (effects s))"])
  show "idx \<in> set (failed_indices s) \<or> idx \<in> set (saved_failed (effects s))"
    by (rule assms)
next
  fix pos p idx' and s :: worker_state
  assume "idx \<in> set (failed_indices s) \<or> idx \<in> set (saved_failed (effects s))"
  then show "idx \<in> set (failed_indices (retry_loop E sbs mr pos p idx' (py_range mr) s))
      \<or> idx \<in> set (saved_failed (effects (retry_loop E sbs mr pos p idx' (py_range mr) s)))"
    by (rule retry_loop_kept)
qed

lemma drain_absent:
  assumes "idx \<notin> index ` set (batch s)" "idx \<notin> index ` set (saved_records (effects s))"
  shows "idx \<notin> index ` set (saved_records (effects (final_state (drain E s))))"
  using assms
  by (auto simp: drain_def save_batch_def save_failed_indices_def durable_write_cases)

lemma drain_kept:
  assumes "idx \<in> set (failed_indices s) \<or> idx \<in> set (saved_failed (effects s))"
    and "drain E s = Inr s'"
  shows "idx \<in> set (saved_failed (effects s'))"
  using assms
  by (auto simp: drain_def save_batch_def save_failed_indices_def durable_write_cases
      split: if_splits)

lemma fold_on_except_early:
  assumes "\<forall>a \<in> set as. int a \<noteq> mr - 1"
  shows "fold (\<lambda>a. on_except mr a idx) as s =
           s\<lparr>logged := logged s @ map (\<lambda>a. AttemptFailed (int a + 1) idx) as\<rparr>"
  using assms
  by (induction as arbitrary: s) (auto simp: on_except_def Let_def)

lemma retry_loop_all_fail:
  assumes "\<forall>a \<in> set as. run_stages E pos a p = None"
  shows "retry_loop E sbs mr pos p idx as s = fold (\<lambda>a. on_except mr a idx) as s"
  using assms
  by (induction as arbitrary: s) (auto simp: try_body_def)

lemma retry_loop_exhausted:
  assumes "1 \<le> mr" and "\<forall>a < nat mr. run_stages E pos a p = None"
  shows "retry_loop E sbs mr pos p idx (py_range mr) s =
           s\<lparr>logged := logged s @ map (\<lambda>a. AttemptFailed (int a + 1) idx) [0 ..< nat mr]
                          @ [AllAttemptsFailed idx],
             failed_indices := failed_indices s @ [idx]\<rparr>"
proof -
  obtain n where n: "nat mr = Suc n" using assms(1) by (cases "nat mr") auto
  then have mr: "mr = int n + 1" using assms(1) by linarith
  have early: "\<forall>a \<in> set [0 ..< n]. int a \<noteq> mr - 1" using mr by auto
  have "retry_loop E sbs mr pos p idx (py_range mr) s
          = fold (\<lambda>a. on_except mr a idx) ([0 ..< n] @ [n]) s"
    using assms(2) n by (simp add: py_range_def retry_loop_all_fail)
  also have "\<dots> = on_except mr n idx (s\<lparr>logged := logged s @ map (\<lambda>a. AttemptFailed (int a + 1) idx) [0 ..< n]\<rparr>)"
    by (simp add: fold_on_except_early [OF early])
  also have "\<dots> = s\<lparr>logged := logged s @ map (\<lambda>a. AttemptFailed (int a + 1) idx) [0 ..< nat mr]
                          @ [AllAttemptsFailed idx],
             failed_indices := failed_indices s @ [idx]\<rparr>"
    using mr n by (simp add: on_except_def Let_def)
  finally show ?thesis .
qed

lemma retry_loop_failing_prefix:
  assumes "\<forall>a \<in> set as. run_stages E pos a p = None"
  shows "retry_loop E sbs mr pos p idx (as @ bs) s =
           retry_loop E sbs mr pos p idx bs (fold (\<lambda>a. on_except mr a idx) as s)"
  using assms
  by (induction as arbitrary: s) (auto simp: try_body_def)

lemma retry_loop_first_success:
  assumes "k < nat mr"
    and "\<forall>a < k. run_stages E pos a p = None"
  shows "retry_loop E sbs mr pos p idx (py_range mr) s =
           retry_loop E sbs mr pos p idx (k # [Suc k ..< nat mr])
             (s\<lparr>logged := logged s @ map (\<lambda>a. AttemptFailed (int a + 1) idx) [0 ..< k]\<rparr>)"
proof -
  have "[0 ..< k + (nat mr - k)] = [0 ..< k] @ [k ..< k + (nat mr - k)]"
    by (rule upt_add_eq_append) simp
  moreover have "k + (nat mr - k) = nat mr"
    using assms(1) by simp
  moreover have "[k ..< nat mr] = k # [Suc k ..< nat mr]"
    using assms(1) by (rule upt_conv_Cons)
  ultimately have split: "[0 ..< nat mr] = [0 ..< k] @ k # [Suc k ..< nat mr]"
    by simp
  have early: "\<forall>a \<in> set [0 ..< k]. int a \<noteq> mr - 1"
    using assms(1) by auto
  have fails: "\<forall>a \<in> set [0 ..< k]. run_stages E pos a p = None"
    using assms(2) by simp
  show ?thesis
    unfolding py_range_def split
    by (simp only: retry_loop_failing_prefix [OF fails] fold_on_except_early [OF early])
qed

lemma first_success_exists:
  assumes "\<exists>k < n. f (k :: nat) \<noteq> None"
  shows "\<exists>k < n. f k \<noteq> None \<and> (\<forall>a < k. f a = None)"
proof -
  from assms obtain k where k: "k < n" "f k \<noteq> None" by blast
  let ?m = "LEAST j. f j \<noteq> None"
  have 1: "f ?m \<noteq> None" using k(2) by (rule LeastI)
  have 2: "?m \<le> k" using k(2) by (rule Least_le)
  have 3: "\<forall>a < ?m. f a = None" using not_less_Least by blast
  from 2 k(1) have 4: "?m < n" by simp
  from 1 3 4 show ?thesis by blast
qed

lemma item_success_below:
  assumes "\<exists>k < nat mr. run_stages E pos k p \<noteq> None"
    and "int (length (batch s)) + 1 < sbs"
  shows "\<exists>r l. index r = idx \<and>
           retry_loop E sbs mr pos p idx (py_range mr) s =
             s\<lparr>batch := batch s @ [r], processed_count := processed_count s + 1,
               logged := logged s @ l\<rparr>"
proof -
  from first_success_exists [of "nat mr" "\<lambda>k. run_stages E pos k p", OF assms(1)]
  obtain k where k: "k < nat mr" "run_stages E pos k p \<noteq> None"
    "\<forall>a < k. run_stages E pos a p = None" by blast
  from k(2) obtain a t where at: "run_stages E pos k p = Some (a, t)" by auto
  let ?r = "\<lparr>index = idx, audio = dumps_audio E a, tokens = dumps_tokens E t\<rparr>"
  have "retry_loop E sbs mr pos p idx (py_range mr) s =
          s\<lparr>batch := batch s @ [?r], processed_count := processed_count s + 1,
            logged := logged s @ map (\<lambda>a. AttemptFailed (int a + 1) idx) [0 ..< k]\<rparr>"
    using assms(2) at
    by (simp add: retry_loop_first_success [OF k(1) k(3)] try_body_def offer_cases)
  then show ?thesis by (intro exI [of _ ?r] exI [of _ "map (\<lambda>a. AttemptFailed (int a + 1) idx) [0 ..< k]"]) simp
qed

lemma item_success_flush:
  assumes "\<exists>k < nat mr. run_stages E pos k p \<noteq> None"
    and "sbs \<le> int (length (batch s)) + 1"
    and "write_ok E (write_calls s)" and "write_ok E (Suc (write_calls s))"
  shows "\<exists>r l. index r = idx \<and>
           retry_loop E sbs mr pos p idx (py_range mr) s =
             s\<lparr>batch := [], failed_indices := [],
               write_calls := Suc (Suc (write_calls s)),
               effects := effects s @ [SaveBatch (batch s @ [r]), SaveFailedIndices (failed_indices s)],
               processed_count := processed_count s + 1,
               logged := logged s @ l\<rparr>"
proof -
  from first_success_exists [of "nat mr" "\<lambda>k. run_stages E pos k p", OF assms(1)]
  obtain k where k: "k < nat mr" "run_stages E pos k p \<noteq> None"
    "\<forall>a < k. run_stages E pos a p = None" by blast
  from k(2) obtain a t where at: "run_stages E pos k p = Some (a, t)" by auto
  let ?r = "\<lparr>index = idx, audio = dumps_audio E a, tokens = dumps_tokens E t\<rparr>"
  have "retry_loop E sbs mr pos p idx (py_range mr) s =
          s\<lparr>batch := [], failed_indices := [],
               write_calls := Suc (Suc (write_calls s)),
               effects := effects s @ [SaveBatch (batch s @ [?r]), SaveFailedIndices (failed_indices s)],
               processed_count := processed_count s + 1,
               logged := logged s @ map (\<lambda>a. AttemptFailed (int a + 1) idx) [0 ..< k]\<rparr>"
    using assms(2-4) at
    by (simp add: retry_loop_first_success [OF k(1) k(3)] try_body_def offer_cases)
  then show ?thesis by (intro exI [of _ ?r] exI [of _ "map (\<lambda>a. AttemptFailed (int a + 1) idx) [0 ..< k]"]) simp
qed

lemma items_below:
  assumes "\<forall>j < length rows. \<exists>k < nat mr. run_stages E (pos + j) k (fst (rows ! j)) \<noteq> None"
    and "int (length (batch s)) + int (length rows) < sbs"
  shows "\<exists>rs l. map index rs = map snd rows \<and>
           item_loop E sbs mr pos rows s =
             s\<lparr>batch := batch s @ rs,
               processed_count := processed_count s + of_nat (length rows),
               logged := logged s @ l\<rparr>"
  using assms
proof (induction rows arbitrary: pos s)
  case Nil
  have "map index [] = map snd ([] :: row list) \<and>
        item_loop E sbs mr pos [] s =
          s\<lparr>batch := batch s @ [],
            processed_count := processed_count s + of_nat (length ([] :: row list)),
            logged := logged s @ []\<rparr>"
    by simp
  then show ?case by blast
next
  case (Cons row rows)
  obtain p idx where row: "row = (p, idx)" by (cases row)
  let ?s1 = "retry_loop E sbs mr pos p idx (py_range mr) s"
  have "\<exists>k < nat mr. run_stages E pos k p \<noteq> None"
    using Cons.prems(1) row by fastforce
  moreover have "int (length (batch s)) + 1 < sbs"
    using Cons.prems(2) by simp
  ultimately obtain r l where r: "index r = idx"
    and s1: "?s1 = s\<lparr>batch := batch s @ [r], processed_count := processed_count s + 1,
                       logged := logged s @ l\<rparr>"
    using item_success_below [of mr E pos p s sbs idx] by blast
  have "\<forall>j < length rows. \<exists>k < nat mr. run_stages E (Suc pos + j) k (fst (rows ! j)) \<noteq> None"
  proof (intro allI impI)
    fix j assume "j < length rows"
    then have "Suc j < length (row # rows)" by simp
    with Cons.prems(1) have "\<exists>k < nat mr. run_stages E (pos + Suc j) k (fst ((row # rows) ! Suc j)) \<noteq> None"
      by blast
    then show "\<exists>k < nat mr. run_stages E (Suc pos + j) k (fst (rows ! j)) \<noteq> None" by simp
  qed
  moreover have "int (length (batch ?s1)) + int (length rows) < sbs"
    using Cons.prems(2) by (simp add: s1)
  ultimately obtain rs l' where rs: "map index rs = map snd rows"
    and s2: "item_loop E sbs mr (Suc pos) rows ?s1 =
               ?s1\<lparr>batch := batch ?s1 @ rs,
                    processed_count := processed_count ?s1 + of_nat (length rows),
                    logged := logged ?s1 @ l'\<rparr>"
    using Cons.IH [of "Suc pos" ?s1] by blast
  have "map index (r # rs) = map snd (row # rows) \<and>
        item_loop E sbs mr pos (row # rows) s =
          s\<lparr>batch := batch s @ (r # rs),
            processed_count := processed_count s + of_nat (length (row # rows)),
            logged := logged s @ (l @ l')\<rparr>"
    using r rs row by (simp add: s2) (simp add: s1 add.commute)
  then show ?case by blast
qed

lemma items_reach_threshold:
  assumes "\<forall>j < length rows. \<exists>k < nat mr. run_stages E (pos + j) k (fst (rows ! j)) \<noteq> None"
    and "rows \<noteq> []"
    and "int (length (batch s)) + int (length rows) = sbs"
    and "write_ok E (write_calls s)" and "write_ok E (Suc (write_calls s))"
  shows "\<exists>rs l. map index rs = map snd rows \<and>
           item_loop E sbs mr pos rows s =
             s\<lparr>batch := [], failed_indices := [],
               write_calls := Suc (Suc (write_calls s)),
               effects := effects s @ [SaveBatch (batch s @ rs), SaveFailedIndices (failed_indices s)],
               processed_count := processed_count s + of_nat (length rows),
               logged := logged s @ l\<rparr>"
proof -
  obtain front p idx where rows: "rows = front @ [(p, idx)]"
    using assms(2) by (metis rev_exhaust surj_pair)
  let ?s1 = "item_loop E sbs mr pos front s"
  have "\<forall>j < length front. \<exists>k < nat mr. run_stages E (pos + j) k (fst (front ! j)) \<noteq> None"
  proof (intro allI impI)
    fix j assume j: "j < length front"
    then have "j < length rows" by (simp add: rows)
    with assms(1) have "\<exists>k < nat mr. run_stages E (pos + j) k (fst (rows ! j)) \<noteq> None" by blast
    with j show "\<exists>k < nat mr. run_stages E (pos + j) k (fst (front ! j)) \<noteq> None"
      by (simp add: rows nth_append)
  qed
  moreover have "int (length (batch s)) + int (length front) < sbs"
    using assms(3) by (simp add: rows)
  ultimately obtain rs l where rs: "map index rs = map snd front"
    and s1: "?s1 = s\<lparr>batch := batch s @ rs,
                      processed_count := processed_count s + of_nat (length front),
                      logged := logged s @ l\<rparr>"
    using items_below [of front mr E pos s sbs] by blast
  have len: "length rs = length front"
    using rs by (metis length_map)
  have "length front < length rows" by (simp add: rows)
  with assms(1) have "\<exists>k < nat mr. run_stages E (pos + length front) k (fst (rows ! length front)) \<noteq> None"
    by blast
  then have "\<exists>k < nat mr. run_stages E (pos + length front) k p \<noteq> None"
    by (simp add: rows)
  moreover have "sbs \<le> int (length (batch ?s1)) + 1"
    using assms(3) by (simp add: s1 rows len)
  moreover have "write_ok E (write_calls ?s1)" "write_ok E (Suc (write_calls ?s1))"
    using assms(4,5) by (simp_all add: s1)
  ultimately obtain r l' where r: "index r = idx"
    and s2: "retry_loop E sbs mr (pos + length front) p idx (py_range mr) ?s1 =
               ?s1\<lparr>batch := [], failed_indices := [],
                    write_calls := Suc (Suc (write_calls ?s1)),
                    effects := effects ?s1 @ [SaveBatch (batch ?s1 @ [r]),
                                              SaveFailedIndices (failed_indices ?s1)],
                    processed_count := processed_count ?s1 + 1,
                    logged := logged ?s1 @ l'\<rparr>"
    using item_success_flush [of mr E "pos + length front" p sbs ?s1 idx] by blast
  have "map index (rs @ [r]) = map snd rows \<and>
        item_loop E sbs mr pos rows s =
          s\<lparr>batch := [], failed_indices := [],
            write_calls := Suc (Suc (write_calls s)),
            effects := effects s @ [SaveBatch (batch s @ (rs @ [r])), SaveFailedIndices (failed_indices s)],
            processed_count := processed_count s + of_nat (length rows),
            logged := logged s @ (l @ l')\<rparr>"
    using r rs by (simp add: rows item_loop_append s2) (simp add: s1 add.commute)
  then show ?thesis by blast
qed

subsection \<open>Evaluating concrete runs\<close>

text \<open>The equations that let the simplifier run the worker on concrete arguments.\<close>

lemmas run_simps = process_and_save_text_def after_items_def init_state_def py_range_def
  try_body_def run_stages_def offer_cases on_except_def drain_def save_batch_def
  save_failed_indices_def durable_write_cases demo_env_def demo_args_def upt_conv_Cons

subsection \<open>Items that exhaust their retries\<close>

text \<open>
  Claim C3. Take an item of the chunk, at position \<open>length before\<close>, whose conversion
  stages raise on every attempt, with \<^verbatim>\<open>max_retries\<close> at least 1 (the configuration asks for
  that) and an index that no other item of the chunk has (indices are unique). From the
  state \<open>s\<close> in which the worker reaches the item, the retry loop logs exactly
  \<^verbatim>\<open>max_retries\<close> failed attempts, numbered 1 to \<^verbatim>\<open>max_retries\<close>, then the final error, and
  appends the index to \<^verbatim>\<open>failed_indices\<close>; it changes nothing else, so the batch, the
  written output and \<^verbatim>\<open>processed_count\<close> are as before the item. The worker goes on with
  the rest of the chunk from there. However the worker ends, and whatever the writer does,
  no record with this index is among the records handed to the writer. Whenever the worker
  returns, the index is among the indices handed to the failed-index file; and when the
  writes of the worker return, the worker does return, so the index is persisted.
\<close>

theorem exhausted_retries:
  assumes "subset args = before @ (p, idx) # rest"
    and "idx \<notin> snd ` set before" and "idx \<notin> snd ` set rest"
    and "1 \<le> max_retries args"
    and "\<forall>a < nat (max_retries args). run_stages E (length before) a p = None"
    and "s = item_loop E (save_batch_size args) (max_retries args) 0 before (init_state c)"
  shows "retry_loop E (save_batch_size args) (max_retries args) (length before) p idx
             (py_range (max_retries args)) s
           = s\<lparr>logged := logged s
                    @ map (\<lambda>a. AttemptFailed (int a + 1) idx) [0 ..< nat (max_retries args)]
                    @ [AllAttemptsFailed idx],
               failed_indices := failed_indices s @ [idx]\<rparr>
       \<and> after_items E args c
           = item_loop E (save_batch_size args) (max_retries args) (Suc (length before)) rest
               (retry_loop E (save_batch_size args) (max_retries args) (length before) p idx
                  (py_range (max_retries args)) s)
       \<and> idx \<notin> index ` set (saved_records (effects (final_state (process_and_save_text E args c))))
       \<and> (\<forall>s'. process_and_save_text E args c = Inr s' \<longrightarrow> idx \<in> set (saved_failed (effects s')))
       \<and> ((\<forall>n. write_ok E n) \<longrightarrow>
            (\<exists>s'. process_and_save_text E args c = Inr s' \<and> idx \<in> set (saved_failed (effects s'))))"
proof -
  let ?sbs = "save_batch_size args" and ?mr = "max_retries args"
  let ?s1 = "retry_loop E ?sbs ?mr (length before) p idx (py_range ?mr) s"
  have step: "?s1 = s\<lparr>logged := logged s
                    @ map (\<lambda>a. AttemptFailed (int a + 1) idx) [0 ..< nat ?mr]
                    @ [AllAttemptsFailed idx],
               failed_indices := failed_indices s @ [idx]\<rparr>"
    using assms(4,5) by (rule retry_loop_exhausted)
  have split: "after_items E args c = item_loop E ?sbs ?mr (Suc (length before)) rest ?s1"
    by (simp add: after_items_def Let_def zip_map_fst_snd assms(1,6) item_loop_append)
  have "idx \<notin> index ` set (batch s) \<and> idx \<notin> index ` set (saved_records (effects s))"
    unfolding assms(6) using assms(2)
    by (rule item_loop_absent) (simp add: init_state_def)
  then have "idx \<notin> index ` set (batch ?s1) \<and> idx \<notin> index ` set (saved_records (effects ?s1))"
    by (simp add: step)
  with assms(3)
  have "idx \<notin> index ` set (batch (after_items E args c))
      \<and> idx \<notin> index ` set (saved_records (effects (after_items E args c)))"
    unfolding split by (rule item_loop_absent)
  then have absent: "idx \<notin> index ` set (saved_records (effects (final_state (process_and_save_text E args c))))"
    by (simp add: process_and_save_text_def drain_absent)
  have "idx \<in> set (failed_indices ?s1) \<or> idx \<in> set (saved_failed (effects ?s1))"
    by (simp add: step)
  then have "idx \<in> set (failed_indices (after_items E args c))
      \<or> idx \<in> set (saved_failed (effects (after_items E args c)))"
    unfolding split by (rule item_loop_kept)
  then have kept: "\<forall>s'. process_and_save_text E args c = Inr s' \<longrightarrow> idx \<in> set (saved_failed (effects s'))"
    unfolding process_and_save_text_def using drain_kept by blast
  have returns: "\<exists>s'. process_and_save_text E args c = Inr s'" if "\<forall>n. write_ok E n"
    using that unfolding process_and_save_text_def
    by (auto simp: drain_def save_batch_def save_failed_indices_def durable_write_cases)
  from kept returns
  have persisted: "(\<forall>n. write_ok E n) \<longrightarrow>
      (\<exists>s'. process_and_save_text E args c = Inr s' \<and> idx \<in> set (saved_failed (effects s')))"
    by blast
  from step split absent kept persisted show ?thesis by blast
qed

text \<open>
  Two runs of claim C3 with writes that return. In the first the only item fails its three
  attempts, and the save after the loop persists its index. In the second the second of
  three items fails its three attempts, with batches of two: the flush at the third item
  persists the index.
\<close>

theorem exhausted_retries_witness:
  "subset (demo_args [(''a'', 4)] 3 3) = [] @ (''a'', 4) # []
   \<and> 1 \<le> max_retries (demo_args [(''a'', 4)] 3 3)
   \<and> nat (max_retries (demo_args [(''a'', 4)] 3 3)) = 3
   \<and> run_stages first_item_fails_env (length ([] :: row list)) 0 ''a'' = None
   \<and> run_stages first_item_fails_env (length ([] :: row list)) 1 ''a'' = None
   \<and> run_stages first_item_fails_env (length ([] :: row list)) 2 ''a'' = None
   \<and> (\<forall>n. write_ok first_item_fails_env n)
   \<and> process_and_save_text first_item_fails_env (demo_args [(''a'', 4)] 3 3) 0
       = Inr \<lparr>batch = [], failed_indices = [4], processed_count = 0, write_calls = 1,
              effects = [SaveFailedIndices [4], WriterClose],
              logged = [AttemptFailed 1 4, AttemptFailed 2 4, AttemptFailed 3 4,
                        AllAttemptsFailed 4]\<rparr>
   \<and> 4 \<in> set (saved_failed (effects (final_state
         (process_and_save_text first_item_fails_env (demo_args [(''a'', 4)] 3 3) 0))))
   \<and> subset (demo_args [(''a'', 7), (''b'', 8), (''c'', 9)] 2 3) = [(''a'', 7)] @ (''b'', 8) # [(''c'', 9)]
   \<and> 8 \<notin> snd ` set [(''a'', 7 :: int)] \<and> 8 \<notin> snd ` set [(''c'', 9 :: int)]
   \<and> run_stages second_item_fails_env (length [(''a'', 7 :: int)]) 0 ''b'' = None
   \<and> run_stages second_item_fails_env (length [(''a'', 7 :: int)]) 1 ''b'' = None
   \<and> run_stages second_item_fails_env (length [(''a'', 7 :: int)]) 2 ''b'' = None
   \<and> (\<forall>n. write_ok second_item_fails_env n)
   \<and> process_and_save_text second_item_fails_env (demo_args [(''a'', 7), (''b'', 8), (''c'', 9)] 2 3) 0
       = Inr \<lparr>batch = [], failed_indices = [], processed_count = 2, write_calls = 2,
              effects = [SaveBatch [\<lparr>index = 7, audio = ''a'', tokens = ''a''\<rparr>,
                                    \<lparr>index = 9, audio = ''c'', tokens = ''c''\<rparr>],
                         SaveFailedIndices [8], WriterClose],
              logged = [AttemptFailed 1 8, AttemptFailed 2 8, AttemptFailed 3 8,
                        AllAttemptsFailed 8]\<rparr>
   \<and> 8 \<notin> index ` set (saved_records (effects (final_state
         (process_and_save_text second_item_fails_env (demo_args [(''a'', 7), (''b'', 8), (''c'', 9)] 2 3) 0))))
   \<and> 8 \<in> set (saved_failed (effects (final_state
         (process_and_save_text second_item_fails_env (demo_args [(''a'', 7), (''b'', 8), (''c'', 9)] 2 3) 0))))"
  using exhausted_retries [OF _ _ _ _ _ refl,
      of "demo_args [(''a'', 4)] 3 3" "[]" "''a''" 4 "[]" first_item_fails_env 0]
    exhausted_retries [OF _ _ _ _ _ refl,
      of "demo_args [(''a'', 7), (''b'', 8), (''c'', 9)] 2 3" "[(''a'', 7)]" "''b''" 8 "[(''c'', 9)]"
         second_item_fails_env 0]
  by (simp add: run_simps first_item_fails_env_def second_item_fails_env_def)

subsection \<open>The end of the chunk\<close>

text \<open>
  Claim C5. Let \<open>s\<close> be the state of a worker that has finished iterating its chunk. When
  the worker returns, what it did after the loop is exactly: one \<^verbatim>\<open>save_batch\<close> of the
  residual batch if it is not empty, then one \<^verbatim>\<open>save_failed_indices\<close> of the residual
  failed indices if there are any, then \<^verbatim>\<open>writer.close()\<close>; no threshold is consulted.
  And the worker does return when the (at most two) writes of this phase return.
\<close>

theorem drain_on_exit:
  assumes "s = after_items E args c"
  shows "(\<forall>s'. process_and_save_text E args c = Inr s' \<longrightarrow>
            effects s' = effects s
              @ (if batch s = [] then [] else [SaveBatch (batch s)])
              @ (if failed_indices s = [] then [] else [SaveFailedIndices (failed_indices s)])
              @ [WriterClose])
       \<and> (write_ok E (write_calls s) \<and> write_ok E (Suc (write_calls s)) \<longrightarrow>
            (\<exists>s'. process_and_save_text E args c = Inr s'))"
  unfolding process_and_save_text_def assms [symmetric]
  by (auto simp: drain_def save_batch_def save_failed_indices_def durable_write_cases
      split: if_splits)

text \<open>A run of claim C5: three items in batches of two leave one record for the end.\<close>

theorem drain_on_exit_witness:
  "write_ok steady_env (write_calls (after_items steady_env (demo_args [(''a'', 7), (''b'', 8), (''c'', 9)] 2 1) 0))
   \<and> write_ok steady_env (Suc (write_calls (after_items steady_env (demo_args [(''a'', 7), (''b'', 8), (''c'', 9)] 2 1) 0)))
   \<and> (\<exists>s'. process_and_save_text steady_env (demo_args [(''a'', 7), (''b'', 8), (''c'', 9)] 2 1) 0 = Inr s'
         \<and> effects s' = effects (after_items steady_env (demo_args [(''a'', 7), (''b'', 8), (''c'', 9)] 2 1) 0)
              @ [SaveBatch [\<lparr>index = 9, audio = ''c'', tokens = ''c''\<rparr>], WriterClose])"
  using drain_on_exit [OF refl, of steady_env "demo_args [(''a'', 7), (''b'', 8), (''c'', 9)] 2 1" 0]
  by (simp add: run_simps steady_env_def)

text \<open>
  Claim C10. The loop over the chunk always yields a state (\<open>after_items\<close> is total: every
  exception raised inside the retry loop is caught there). After the loop nothing is
  caught: if \<^verbatim>\<open>save_batch\<close> of a non-empty residual batch raises, or \<^verbatim>\<open>save_failed_indices\<close>
  of a non-empty residual list raises, then \<^verbatim>\<open>process_and_save_text\<close> ends with that
  exception, and \<^verbatim>\<open>writer.close()\<close> has not been called at any point of the run.
\<close>

theorem drain_failure:
  assumes "s = after_items E args c"
    and "batch s \<noteq> [] \<and> \<not> write_ok E (write_calls s)
       \<or> failed_indices s \<noteq> [] \<and> \<not> write_ok E (write_calls s + (if batch s = [] then 0 else 1))"
  shows "\<exists>s'. process_and_save_text E args c = Inl (WriteError, s')
            \<and> WriterClose \<notin> set (effects s')
            \<and> effects s' = effects s @
                 (if batch s \<noteq> [] \<and> write_ok E (write_calls s) then [SaveBatch (batch s)] else [])"
proof -
  have nc: "WriterClose \<notin> set (effects s)"
    by (simp add: assms(1) after_items_no_close)
  from assms(2) nc show ?thesis
    unfolding process_and_save_text_def assms(1) [symmetric]
    by (auto simp: drain_def save_batch_def save_failed_indices_def durable_write_cases
        split: if_splits)
qed

text \<open>A run of claim C10: one record is left for the end and the writer refuses it.\<close>

theorem drain_failure_witness:
  "batch (after_items broken_writer_env (demo_args [(''a'', 7)] 2 1) 0) \<noteq> []
   \<and> \<not> write_ok broken_writer_env (write_calls (after_items broken_writer_env (demo_args [(''a'', 7)] 2 1) 0))
   \<and> (\<exists>s'. process_and_save_text broken_writer_env (demo_args [(''a'', 7)] 2 1) 0 = Inl (WriteError, s')
          \<and> WriterClose \<notin> set (effects s')
          \<and> effects s' = [])"
  using drain_failure [OF refl, of broken_writer_env "demo_args [(''a'', 7)] 2 1" 0]
  by (simp add: run_simps broken_writer_env_def)

subsection \<open>The flush threshold\<close>

text \<open>
  Claim C4. Let the worker be in any state \<open>s\<close> and let it go through rows that each
  succeed at some attempt, so that each row offers one record to the batch. While the
  batch stays below \<^verbatim>\<open>save_batch_size\<close> nothing is written: the records are appended to the
  batch, the counter grows by their number, and only the log may grow besides (offering
  \<^verbatim>\<open>save_batch_size - 1\<close> records to an empty batch triggers no flush). When the last of the
  rows brings the batch to exactly \<^verbatim>\<open>save_batch_size\<close> records and the two writes return,
  exactly one flush occurs: one \<^verbatim>\<open>save_batch\<close> of all the records, followed by one
  \<^verbatim>\<open>save_failed_indices\<close> of the failed indices accumulated so far, and both the batch and
  the failed-index list are empty afterwards. (The code calls \<^verbatim>\<open>save_failed_indices\<close> at
  a flush also when the list is empty.)
\<close>

theorem flush_threshold:
  assumes "\<forall>j < length rows. \<exists>k < nat mr. run_stages E (pos + j) k (fst (rows ! j)) \<noteq> None"
  shows "(int (length (batch s)) + int (length rows) < sbs \<longrightarrow>
           (\<exists>rs l. map index rs = map snd rows \<and>
              item_loop E sbs mr pos rows s =
                s\<lparr>batch := batch s @ rs,
                  processed_count := processed_count s + of_nat (length rows),
                  logged := logged s @ l\<rparr>))
       \<and> (rows \<noteq> [] \<and> int (length (batch s)) + int (length rows) = sbs
            \<and> write_ok E (write_calls s) \<and> write_ok E (Suc (write_calls s)) \<longrightarrow>
           (\<exists>rs l. map index rs = map snd rows \<and>
              item_loop E sbs mr pos rows s =
                s\<lparr>batch := [], failed_indices := [],
                  write_calls := Suc (Suc (write_calls s)),
                  effects := effects s @ [SaveBatch (batch s @ rs),
                                          SaveFailedIndices (failed_indices s)],
                  processed_count := processed_count s + of_nat (length rows),
                  logged := logged s @ l\<rparr>))"
  using items_below [OF assms] items_reach_threshold [OF assms] by blast

text \<open>
  A run of claim C4 with batches of three and one failed index already accumulated: two
  rows leave the writer untouched, three rows cause one flush.
\<close>

theorem flush_threshold_witness:
  "run_stages steady_env 0 0 ''a'' \<noteq> None \<and> run_stages steady_env 1 0 ''b'' \<noteq> None
   \<and> run_stages steady_env 2 0 ''c'' \<noteq> None
   \<and> item_loop steady_env 3 1 0 [(''a'', 7), (''b'', 8)] ((init_state 0)\<lparr>failed_indices := [5]\<rparr>)
       = \<lparr>batch = [\<lparr>index = 7, audio = ''a'', tokens = ''a''\<rparr>,
                   \<lparr>index = 8, audio = ''b'', tokens = ''b''\<rparr>],
          failed_indices = [5], processed_count = 2, write_calls = 0, effects = [], logged = []\<rparr>
   \<and> item_loop steady_env 3 1 0 [(''a'', 7), (''b'', 8), (''c'', 9)] ((init_state 0)\<lparr>failed_indices := [5]\<rparr>)
       = \<lparr>batch = [], failed_indices = [], processed_count = 3, write_calls = 2,
          effects = [SaveBatch [\<lparr>index = 7, audio = ''a'', tokens = ''a''\<rparr>,
                                \<lparr>index = 8, audio = ''b'', tokens = ''b''\<rparr>,
                                \<lparr>index = 9, audio = ''c'', tokens = ''c''\<rparr>],
                     SaveFailedIndices [5]],
          logged = []\<rparr>"
  using flush_threshold [of "[(''a'', 7), (''b'', 8)]" 1 steady_env 0
      "(init_state 0)\<lparr>failed_indices := [5]\<rparr>" 3]
    flush_threshold [of "[(''a'', 7), (''b'', 8), (''c'', 9)]" 1 steady_env 0
      "(init_state 0)\<lparr>failed_indices := [5]\<rparr>" 3]
  by (simp add: run_simps steady_env_def)

subsection \<open>Writes that raise\<close>

text \<open>
  Claim C1, at a failing input. One item with index 7, \<^verbatim>\<open>save_batch_size = 1\<close>,
  \<^verbatim>\<open>max_retries = 2\<close>; the conversion stages return on every attempt, the first call of
  \<^verbatim>\<open>save_batch\<close> raises and all later writes return. The first attempt has appended the
  record before the flush raises (line 94 precedes line 103), the handler does not take it
  back, and the second attempt appends it again: the item succeeds on attempt 2, the
  counter is incremented once, and two records with index 7 are written.
\<close>

theorem duplicate_after_failed_flush:
  "run_stages flaky_writer_env 0 0 ''a'' = Some (''a'', ''a'')
   \<and> process_and_save_text flaky_writer_env (demo_args [(''a'', 7)] 1 2) 0
       = Inr \<lparr>batch = [], failed_indices = [], processed_count = 1, write_calls = 3,
              effects = [SaveBatch [\<lparr>index = 7, audio = ''a'', tokens = ''a''\<rparr>,
                                    \<lparr>index = 7, audio = ''a'', tokens = ''a''\<rparr>],
                         SaveFailedIndices [], WriterClose],
              logged = [AttemptFailed 1 7]\<rparr>"
  by (simp add: run_simps flaky_writer_env_def)

text \<open>
  Claim C2, at a failing input. Two items with indices 7 and 8, \<^verbatim>\<open>save_batch_size = 1\<close>,
  \<^verbatim>\<open>max_retries = 2\<close>; the conversion stages return on every attempt, the first call of
  \<^verbatim>\<open>save_batch\<close> raises and all later writes return. The flush at line 103 is inside the
  \<^verbatim>\<open>try\<close> of the attempt, so the handler at line 111 takes the write failure for a failure
  of the item: it logs a failed attempt for index 7 and the item is tried again. The worker
  does not stop: it processes the item with index 8, closes its writer and returns. The
  writes after the loop (lines 122 and 125) are outside any handler and do end the worker.
\<close>

theorem write_failure_not_fatal:
  "\<not> write_ok flaky_writer_env 0
   \<and> process_and_save_text flaky_writer_env (demo_args [(''a'', 7), (''b'', 8)] 1 2) 0
       = Inr \<lparr>batch = [], failed_indices = [], processed_count = 2, write_calls = 5,
              effects = [SaveBatch [\<lparr>index = 7, audio = ''a'', tokens = ''a''\<rparr>,
                                    \<lparr>index = 7, audio = ''a'', tokens = ''a''\<rparr>],
                         SaveFailedIndices [],
                         SaveBatch [\<lparr>index = 8, audio = ''b'', tokens = ''b''\<rparr>],
                         SaveFailedIndices [], WriterClose],
              logged = [AttemptFailed 1 7]\<rparr>"
  by (simp add: run_simps flaky_writer_env_def)

subsection \<open>Auxiliary facts about the orchestrator\<close>

lemma start_workers_devices:
  assumes "devices \<noteq> []"
  shows "start_workers devices dir sbs rate mr spk fmt i chunks tr =
           Inr (tr @ map (\<lambda>j. Start \<lparr>subset = chunks ! j,
                                      device = devices ! ((i + j) mod length devices),
                                      process_id = i + j, save_dir = dir,
                                      save_batch_size = sbs, sample_rate = rate,
                                      max_retries = mr, speaker = spk, format = fmt\<rparr>)
                      [0 ..< length chunks])"
  using assms
  by (induction chunks arbitrary: i tr) (simp_all add: map_upt_Suc del: upt_Suc)

lemma start_workers_no_devices:
  "start_workers [] dir sbs rate mr spk fmt i chunks tr =
     (if chunks = [] then Inr tr else Inl (ZeroDivisionError, tr))"
  by (cases chunks) simp_all

lemma unpack_present:
  assumes "cfg_devices c = Some devices" "cfg_num_procs_per_device c = Some nppd"
    "cfg_save_dir c = Some dir" "cfg_save_batch_size c = Some sbs"
    "cfg_sample_rate c = Some rate" "cfg_max_retries c = Some mr"
    "cfg_speaker c = Some spk" "cfg_format c = Some fmt"
  shows "unpack c = Inr (devices, nppd, dir, sbs, rate, mr, spk, fmt)"
  using assms by (simp add: unpack_def)

lemma unpack_missing:
  assumes "cfg_devices c = None \<or> cfg_num_procs_per_device c = None \<or> cfg_save_dir c = None
         \<or> cfg_save_batch_size c = None \<or> cfg_sample_rate c = None \<or> cfg_max_retries c = None
         \<or> cfg_speaker c = None \<or> cfg_format c = None"
  shows "\<exists>k. k \<in> set required_keys \<and> unpack c = Inl (KeyError k)"
  using assms by (auto simp: unpack_def required_keys_def split: option.splits)


lemma poll_workers_Some:
  assumes "poll_workers env n t tr = Some (m, tr')"
  shows "t \<le> m \<and> (\<forall>u. t \<le> u \<and> u < m \<longrightarrow> any_alive env n u) \<and> \<not> any_alive env n m
       \<and> tr' = tr @ concat (map (\<lambda>u. [LogProcessed (read_count env u), Sleep 60]) [t ..< m])"
proof -
  let ?P = "\<lambda>env n t tr y.
       t \<le> fst y \<and> (\<forall>u. t \<le> u \<and> u < fst y \<longrightarrow> any_alive env n u) \<and> \<not> any_alive env n (fst y)
       \<and> snd y = tr @ concat (map (\<lambda>u. [LogProcessed (read_count env u), Sleep 60]) [t ..< fst y])"
  have "?P env n t tr (m, tr')"
  proof (rule poll_workers.raw_induct [where P = ?P])
    show "poll_workers env n t tr = Some (m, tr')" by (rule assms)
  next
    fix poll :: "'a orchestrator_env \<Rightarrow> nat \<Rightarrow> nat \<Rightarrow> 'a trace \<Rightarrow> (nat \<times> 'a trace) option"
      and env n t tr y
    assume ih: "\<And>n t tr b y. poll n t tr b = Some y \<Longrightarrow> ?P n t tr b y"
      and step: "(if any_alive env n t
                  then poll env n (Suc t) (tr @ [LogProcessed (read_count env t), Sleep 60])
                  else Some (t, tr)) = Some y"
    show "?P env n t tr y"
    proof (cases "any_alive env n t")
      case True
      with step have "poll env n (Suc t) (tr @ [LogProcessed (read_count env t), Sleep 60]) = Some y"
        by simp
      from ih [OF this]
      have 1: "Suc t \<le> fst y" and 2: "\<forall>u. Suc t \<le> u \<and> u < fst y \<longrightarrow> any_alive env n u"
        and 3: "\<not> any_alive env n (fst y)"
        and 4: "snd y = (tr @ [LogProcessed (read_count env t), Sleep 60])
           @ concat (map (\<lambda>u. [LogProcessed (read_count env u), Sleep 60]) [Suc t ..< fst y])"
        by blast+
      have 5: "\<forall>u. t \<le> u \<and> u < fst y \<longrightarrow> any_alive env n u"
      proof (intro allI impI)
        fix u assume u: "t \<le> u \<and> u < fst y"
        show "any_alive env n u"
        proof (cases "u = t")
          case True
          with \<open>any_alive env n t\<close> show ?thesis by simp
        next
          case False
          with u have "Suc t \<le> u \<and> u < fst y" by simp
          with 2 show ?thesis by blast
        qed
      qed
      have 6: "[t ..< fst y] = t # [Suc t ..< fst y]"
        using 1 by (simp add: upt_conv_Cons)
      from 1 have 7: "t \<le> fst y" by simp
      from 4 have 8: "snd y = tr @ concat (map (\<lambda>u. [LogProcessed (read_count env u), Sleep 60]) [t ..< fst y])"
        unfolding 6 by simp
      from 7 5 3 8 show ?thesis by blast
    next
      case False
      with step have "y = (t, tr)" by simp
      with False show ?thesis by auto
    qed
  qed
  then show ?thesis by simp
qed

lemma started_append [simp]: "started (xs @ ys) = started xs @ started ys"
  by (induction xs rule: started.induct) simp_all

lemma started_map_Start [simp]: "started (map (\<lambda>i. Start (f i)) js) = map f js"
  by (induction js) simp_all

lemma started_rounds [simp]:
  "started (concat (map (\<lambda>u. [LogProcessed (g u), Sleep k]) us)) = []"
  by (induction us) simp_all

lemma started_joins [simp]: "started (map Join js) = []"
  by (induction js) simp_all

lemma is_upload_map_Start [simp]: "list_ex is_upload (map (\<lambda>i. Start (f i)) js) = False"
  by (induction js) simp_all

lemma is_join_map_Start [simp]: "list_ex is_join (map (\<lambda>i. Start (f i)) js) = False"
  by (induction js) simp_all

lemma is_upload_rounds [simp]:
  "list_ex is_upload (concat (map (\<lambda>u. [LogProcessed (g u), Sleep k]) us)) = False"
  by (induction us) simp_all

lemma is_upload_joins [simp]: "list_ex is_upload (map Join js) = False"
  by (induction js) simp_all

lemma filter_upload_none:
  "\<not> list_ex is_upload tr \<Longrightarrow> filter is_upload tr = []"
  by (induction tr) auto

lemma wait_for_workers_Some:
  assumes "wait_for_workers env n tr = Some out"
  shows "\<exists>m. out = tr @ concat (map (\<lambda>u. [LogProcessed (read_count env u), Sleep 60]) [0 ..< m])
                   @ map Join [0 ..< n] @ [LogFinished, LogFinalCount (read_count env m)]
             \<and> (\<forall>u < m. any_alive env n u) \<and> \<not> any_alive env n m"
proof -
  from assms obtain m tr1 where p: "poll_workers env n 0 tr = Some (m, tr1)"
    and out: "out = tr1 @ map Join [0 ..< n] @ [LogFinished, LogFinalCount (read_count env m)]"
    by (auto simp: wait_for_workers_def split: option.splits)
  from poll_workers_Some [OF p] out show ?thesis by auto
qed




text \<open>The equations that let the simplifier run the orchestrator on concrete arguments.\<close>

lemmas orchestrator_simps = run_pipeline_def launch_workers_def unpack_def wait_for_workers_def
  any_alive_def demo_orchestrator_env_def demo_config_def demo_rows_def upt_conv_Cons mod_Suc




subsection \<open>Launching the workers\<close>

text \<open>
  Claim C6. Let all eight keys be present, the speaker exist, \<^verbatim>\<open>os.makedirs\<close> return, and
  \<^verbatim>\<open>create_non_overlapping_chunks\<close>, asked for \<open>W = len(devices) * num_procs_per_device\<close>
  chunks, return the list \<open>chunks\<close>. Then the orchestrator has asked for exactly \<open>W\<close> chunks
  (the event \<open>RequestChunks\<close>), and it starts exactly one process per chunk, in order:
  process \<open>i\<close> gets chunk \<open>i\<close>, the device \<open>devices[i mod len(devices)]\<close>, the identifier
  \<open>i\<close>, and the resolved speaker and the settings of the configuration. The only
  exception is a configuration without devices for which chunks are returned all the same:
  the remainder by zero raises before any process starts. Whatever happens afterwards,
  the processes started in a run of \<^verbatim>\<open>run_pipeline\<close> that ends are exactly these.
\<close>

theorem worker_assignment:
  assumes "cfg_devices c = Some devices" and "cfg_num_procs_per_device c = Some nppd"
    and "cfg_save_dir c = Some dir" and "cfg_save_batch_size c = Some sbs"
    and "cfg_sample_rate c = Some rate" and "cfg_max_retries c = Some mr"
    and "cfg_speaker c = Some spk" and "cfg_format c = Some fmt"
    and "speakers env spk = Some voice" and "makedirs_ok env dir"
    and "create_non_overlapping_chunks env data (int (length devices) * nppd) = Inr chunks"
  shows "launch_workers env data c =
          (if chunks \<noteq> [] \<and> devices = []
           then Inl (ZeroDivisionError,
                     [Print, Makedirs dir, LogDatasetSize (length data),
                      RequestChunks (int (length devices) * nppd)])
           else Inr ([Print, Makedirs dir, LogDatasetSize (length data),
                      RequestChunks (int (length devices) * nppd)]
                     @ map (\<lambda>i. Start \<lparr>subset = chunks ! i,
                                          device = devices ! (i mod length devices),
                                          process_id = i, save_dir = dir,
                                          save_batch_size = sbs, sample_rate = rate,
                                          max_retries = mr, speaker = voice, format = fmt\<rparr>)
                         [0 ..< length chunks],
                     length chunks))
       \<and> (\<forall>out. run_pipeline env data c = Some out \<longrightarrow>
            started (trace_of out) =
              (if chunks \<noteq> [] \<and> devices = [] then []
               else map (\<lambda>i. \<lparr>subset = chunks ! i,
                                 device = devices ! (i mod length devices),
                                 process_id = i, save_dir = dir,
                                 save_batch_size = sbs, sample_rate = rate,
                                 max_retries = mr, speaker = voice, format = fmt\<rparr>)
                      [0 ..< length chunks]))"
proof -
  let ?pre = "[Print, Makedirs dir, LogDatasetSize (length data),
               RequestChunks (int (length devices) * nppd)] :: 'a trace"
  let ?args = "\<lambda>i. \<lparr>subset = chunks ! i, device = devices ! (i mod length devices),
                       process_id = i, save_dir = dir, save_batch_size = sbs,
                       sample_rate = rate, max_retries = mr, speaker = voice, format = fmt\<rparr>"
  have launch: "launch_workers env data c =
          (if chunks \<noteq> [] \<and> devices = [] then Inl (ZeroDivisionError, ?pre)
           else Inr (?pre @ map (\<lambda>i. Start (?args i)) [0 ..< length chunks], length chunks))"
  proof (cases "devices = []")
    case True
    with assms show ?thesis
      by (simp add: launch_workers_def unpack_present [OF assms(1-8)] start_workers_no_devices)
  next
    case False
    with assms show ?thesis
      by (simp add: launch_workers_def unpack_present [OF assms(1-8)] start_workers_devices)
  qed
  have runs: "started (trace_of out) =
      (if chunks \<noteq> [] \<and> devices = [] then [] else map ?args [0 ..< length chunks])"
    if "run_pipeline env data c = Some out" for out
  proof (cases "chunks \<noteq> [] \<and> devices = []")
    case True
    with that launch show ?thesis by (auto simp: run_pipeline_def)
  next
    case False
    with launch have l: "launch_workers env data c =
        Inr (?pre @ map (\<lambda>i. Start (?args i)) [0 ..< length chunks], length chunks)"
      by simp
    with that obtain tr1 where w: "wait_for_workers env (length chunks)
        (?pre @ map (\<lambda>i. Start (?args i)) [0 ..< length chunks]) = Some tr1"
      and out: "out = Inr tr1"
      by (auto simp: run_pipeline_def split: option.splits)
    from wait_for_workers_Some [OF w] out False show ?thesis by auto
  qed
  from launch runs show ?thesis by blast
qed

text \<open>
  A run of claim C6: two devices, two processes per device, four chunks; the devices
  alternate.
\<close>

theorem worker_assignment_witness:
  "cfg_devices demo_config = Some [''cuda:0'', ''cuda:1'']
   \<and> cfg_num_procs_per_device demo_config = Some 2
   \<and> cfg_save_dir demo_config = Some ''out'' \<and> cfg_save_batch_size demo_config = Some 3
   \<and> cfg_sample_rate demo_config = Some 16000 \<and> cfg_max_retries demo_config = Some 3
   \<and> cfg_speaker demo_config = Some ''default_speaker''
   \<and> cfg_format demo_config = Some ''parquet''
   \<and> speakers demo_orchestrator_env ''default_speaker'' = Some ''voice''
   \<and> makedirs_ok demo_orchestrator_env ''out''
   \<and> create_non_overlapping_chunks demo_orchestrator_env demo_rows
         (int (length [''cuda:0'', ''cuda:1'']) * 2)
       = Inr [[(''a'', 0)], [(''b'', 1)], [(''c'', 2)], [(''d'', 3)]]
   \<and> started (fst (projr (launch_workers demo_orchestrator_env demo_rows demo_config)))
       = [\<lparr>subset = [(''a'', 0)], device = ''cuda:0'', process_id = 0, save_dir = ''out'',
           save_batch_size = 3, sample_rate = 16000, max_retries = 3, speaker = ''voice'',
           format = ''parquet''\<rparr>,
          \<lparr>subset = [(''b'', 1)], device = ''cuda:1'', process_id = 1, save_dir = ''out'',
           save_batch_size = 3, sample_rate = 16000, max_retries = 3, speaker = ''voice'',
           format = ''parquet''\<rparr>,
          \<lparr>subset = [(''c'', 2)], device = ''cuda:0'', process_id = 2, save_dir = ''out'',
           save_batch_size = 3, sample_rate = 16000, max_retries = 3, speaker = ''voice'',
           format = ''parquet''\<rparr>,
          \<lparr>subset = [(''d'', 3)], device = ''cuda:1'', process_id = 3, save_dir = ''out'',
           save_batch_size = 3, sample_rate = 16000, max_retries = 3, speaker = ''voice'',
           format = ''parquet''\<rparr>]"
  using worker_assignment [of demo_config "[''cuda:0'', ''cuda:1'']" 2 "''out''" 3 16000 3
      "''default_speaker''" "''parquet''" demo_orchestrator_env "''voice''" demo_rows
      "[[(''a'', 0)], [(''b'', 1)], [(''c'', 2)], [(''d'', 3)]]"]
  by (simp add: orchestrator_simps)

subsection \<open>Configurations that are refused\<close>

text \<open>
  Claim C7 as stated fails on the kind of the error: a configuration without any of the
  keys makes \<^verbatim>\<open>run_pipeline\<close> raise the \<^verbatim>\<open>KeyError\<close> of the dictionary lookup at line 156, for
  the first key of the list. The file defines no \<^verbatim>\<open>ConfigurationError\<close> and validates nothing.
\<close>

theorem missing_key_raises_KeyError:
  "run_pipeline demo_orchestrator_env demo_rows
     \<lparr>cfg_devices = None, cfg_num_procs_per_device = None, cfg_save_dir = None,
      cfg_save_batch_size = None, cfg_sample_rate = None, cfg_max_retries = None,
      cfg_speaker = None, cfg_format = None\<rparr>
   = Some (Inl (KeyError ''devices'', [Print]))"
  by (simp add: orchestrator_simps)

text \<open>
  Claim C7, amended. When at least one of the eight required keys is absent,
  \<^verbatim>\<open>run_pipeline\<close> raises \<^verbatim>\<open>KeyError\<close> for the first absent key in the order of line 157,
  and it has done nothing but print the configuration: the save directory is not created,
  no chunk is asked for, no worker process is started.
\<close>

theorem missing_key:
  assumes "cfg_devices c = None \<or> cfg_num_procs_per_device c = None \<or> cfg_save_dir c = None
         \<or> cfg_save_batch_size c = None \<or> cfg_sample_rate c = None \<or> cfg_max_retries c = None
         \<or> cfg_speaker c = None \<or> cfg_format c = None"
  shows "run_pipeline env data c =
           Some (Inl (KeyError
             (if cfg_devices c = None then ''devices''
              else if cfg_num_procs_per_device c = None then ''num_procs_per_device''
              else if cfg_save_dir c = None then ''save_dir''
              else if cfg_save_batch_size c = None then ''save_batch_size''
              else if cfg_sample_rate c = None then ''sample_rate''
              else if cfg_max_retries c = None then ''max_retries''
              else if cfg_speaker c = None then ''speaker''
              else ''format''),
             [Print]))"
  using assms
  by (auto simp: run_pipeline_def launch_workers_def unpack_def split: option.splits)

text \<open>
  Two runs of the amended claim C7: with \<^verbatim>\<open>save_dir\<close> and \<^verbatim>\<open>format\<close> both absent the error
  names \<^verbatim>\<open>save_dir\<close>, which comes first; with \<^verbatim>\<open>max_retries\<close> alone absent it names that key.
\<close>

theorem missing_key_witness:
  "cfg_save_dir (demo_config\<lparr>cfg_save_dir := None, cfg_format := None\<rparr>) = None
   \<and> cfg_format (demo_config\<lparr>cfg_save_dir := None, cfg_format := None\<rparr>) = None
   \<and> run_pipeline demo_orchestrator_env demo_rows
         (demo_config\<lparr>cfg_save_dir := None, cfg_format := None\<rparr>)
       = Some (Inl (KeyError ''save_dir'', [Print]))
   \<and> cfg_max_retries (demo_config\<lparr>cfg_max_retries := None\<rparr>) = None
   \<and> run_pipeline demo_orchestrator_env demo_rows (demo_config\<lparr>cfg_max_retries := None\<rparr>)
       = Some (Inl (KeyError ''max_retries'', [Print]))"
  using missing_key [of "demo_config\<lparr>cfg_save_dir := None, cfg_format := None\<rparr>"
      demo_orchestrator_env demo_rows]
    missing_key [of "demo_config\<lparr>cfg_max_retries := None\<rparr>" demo_orchestrator_env demo_rows]
  by (simp add: demo_config_def)

text \<open>
  Claim C9. When the value of the key \<^verbatim>\<open>speaker\<close> names no attribute of the module
  \<^verbatim>\<open>speakers\<close>, \<^verbatim>\<open>run_pipeline\<close> raises having done nothing but print the configuration: before
  the save directory is created, before the dataset is chunked and before any worker
  process is started. The exception is the \<^verbatim>\<open>AttributeError\<close> of \<^verbatim>\<open>getattr\<close> (line 170) when
  the other seven keys are present, and the \<^verbatim>\<open>KeyError\<close> of an absent key otherwise. The
  speaker is resolved once, in the orchestrator: the workers receive the resolved value
  with every \<open>Start\<close>.
\<close>

theorem unknown_speaker:
  assumes "cfg_speaker c = Some spk" and "speakers env spk = None"
  shows "\<exists>e. run_pipeline env data c = Some (Inl (e, [Print]))
           \<and> (e = AttributeError spk \<or> (\<exists>k. k \<in> set required_keys \<and> e = KeyError k))
           \<and> (cfg_devices c \<noteq> None \<and> cfg_num_procs_per_device c \<noteq> None \<and> cfg_save_dir c \<noteq> None
                \<and> cfg_save_batch_size c \<noteq> None \<and> cfg_sample_rate c \<noteq> None
                \<and> cfg_max_retries c \<noteq> None \<and> cfg_format c \<noteq> None
                \<longrightarrow> e = AttributeError spk)"
  using assms
  by (auto simp: run_pipeline_def launch_workers_def unpack_def required_keys_def
      split: option.splits)

text \<open>A run of claim C9: the speaker \<^verbatim>\<open>nobody\<close> does not exist.\<close>

theorem unknown_speaker_witness:
  "cfg_speaker (demo_config\<lparr>cfg_speaker := Some ''nobody''\<rparr>) = Some ''nobody''
   \<and> speakers demo_orchestrator_env ''nobody'' = None
   \<and> run_pipeline demo_orchestrator_env demo_rows (demo_config\<lparr>cfg_speaker := Some ''nobody''\<rparr>)
       = Some (Inl (AttributeError ''nobody'', [Print]))"
  using unknown_speaker [of "demo_config\<lparr>cfg_speaker := Some ''nobody''\<rparr>" "''nobody''"
      demo_orchestrator_env demo_rows]
  by (simp add: orchestrator_simps)

subsection \<open>Monitoring, joining and the upload\<close>



end
